theory Spec2Isabelle
  imports Main "HOL-Library.Word"
begin

section \<open>The argument echoer: print_args.cc and print_args.cpp\<close>

text \<open>
  The repository holds two programs with the same \<open>main\<close>: \<open>print_args.cc\<close> writes with
  \<open>std::cout <<\<close>, \<open>print_args.cpp\<close> writes with \<open>printf\<close>. Each prints a begin marker,
  the arguments \<open>argv[1]\<close> .. \<open>argv[argc - 1]\<close> one per line, an end marker, and returns 1.

  Both are embedded as functions of \<open>argc\<close>, \<open>argv\<close> and the state of the process's
  surroundings. A result is \<open>None\<close> when \<open>main\<close> does not return, \<open>Some (Inl f)\<close> when the
  run leaves defined behaviour with fault \<open>f\<close>, and \<open>Some (Inr (c, w))\<close> when \<open>main\<close>
  returns \<open>c\<close> and leaves the surroundings as \<open>w\<close>.
\<close>

subsection \<open>Surroundings of the process\<close>

text \<open>
  The three standard streams: the bytes still to be read from standard input, and the
  bytes written so far to standard output and to standard error. The functions below work
  on any extension of the record, so the extension field stands for everything else a
  process could touch (environment variables, files, sockets). Standard output is taken
  to accept every write and to pass each byte on as it is.
\<close>

record world =
  stdin :: string
  stdout :: string
  stderr :: string

datatype fault = Argv_Out_Of_Range | Bad_Format

text \<open>\<open>int\<close> of the source is a 32-bit two's complement integer.\<close>

type_synonym c_int = "32 word"

text \<open>
  The array \<open>argv\<close>, by index: \<open>Some s\<close> where the entry points to a C string with
  contents \<open>s\<close> (the characters before the terminating NUL), \<open>None\<close> where the entry
  is the null pointer or lies outside the array.
\<close>

type_synonym argv = "int \<Rightarrow> string option"

text \<open>The contents of a C string hold no NUL character.\<close>

definition c_string :: "string \<Rightarrow> bool" where
  "c_string s = (CHR 0x00 \<notin> set s)"

subsection \<open>Writing to standard output\<close>

text \<open>\<open>std::cout << s\<close> for a C string \<open>s\<close>.\<close>

definition cout_insert :: "string \<Rightarrow> 'a world_scheme \<Rightarrow> 'a world_scheme" where
  "cout_insert s w = w\<lparr>stdout := stdout w @ s\<rparr>"

text \<open>
  The part of \<open>printf\<close>'s format language that the source uses: an ordinary character is
  copied, \<open>%s\<close> is replaced by the next string argument. Any other directive, and \<open>%s\<close>
  with no argument left, is \<open>None\<close>.
\<close>

fun format :: "string \<Rightarrow> string list \<Rightarrow> string option" where
  "format [] vs = Some []"
| "format (c # fmt) vs =
     (if c \<noteq> CHR ''%'' then map_option ((#) c) (format fmt vs)
      else (case (fmt, vs) of
              (d # fmt', v # vs') \<Rightarrow>
                if d = CHR ''s'' then map_option ((@) v) (format fmt' vs') else None
            | _ \<Rightarrow> None))"

definition printf :: "string \<Rightarrow> string list \<Rightarrow> 'a world_scheme \<Rightarrow> fault + 'a world_scheme" where
  "printf fmt vs w =
     (case format fmt vs of
        None \<Rightarrow> Inl Bad_Format
      | Some s \<Rightarrow> Inr (w\<lparr>stdout := stdout w @ s\<rparr>))"

subsection \<open>print_args.cc\<close>

text \<open>
  \<^verbatim>\<open>for (int i = 1; i < argc; ++i) { std::cout << argv[i] << "\n"; }\<close>
  The comparison is signed, \<open>++i\<close> is addition on 32-bit words. The loop is defined
  without a termination argument; that it returns is proved below.
\<close>

partial_function (option) loop_cc ::
  "c_int \<Rightarrow> c_int \<Rightarrow> argv \<Rightarrow> 'a world_scheme \<Rightarrow> (fault + 'a world_scheme) option" where
  "loop_cc i argc argv w =
     (if i <s argc
      then (case argv (sint i) of
              None \<Rightarrow> Some (Inl Argv_Out_Of_Range)
            | Some a \<Rightarrow>
                loop_cc (i + 1) argc argv (cout_insert ''\<newline>'' (cout_insert a w)))
      else Some (Inr w))"

definition main_cc ::
  "c_int \<Rightarrow> argv \<Rightarrow> 'a world_scheme \<Rightarrow> (fault + c_int \<times> 'a world_scheme) option" where
  "main_cc argc argv w =
     (case loop_cc 1 argc argv
             (cout_insert ''===HEDRON_COMPILE_COMMANDS_BEGIN_ARGS===\<newline>'' w) of
        None \<Rightarrow> None
      | Some (Inl e) \<Rightarrow> Some (Inl e)
      | Some (Inr w') \<Rightarrow>
          Some (Inr (1, cout_insert ''===HEDRON_COMPILE_COMMANDS_END_ARGS===\<newline>'' w')))"

subsection \<open>print_args.cpp\<close>

text \<open>\<^verbatim>\<open>for (int i = 1; i < argc; ++i) { printf("%s\n",argv[i]); }\<close>\<close>

partial_function (option) loop_cpp ::
  "c_int \<Rightarrow> c_int \<Rightarrow> argv \<Rightarrow> 'a world_scheme \<Rightarrow> (fault + 'a world_scheme) option" where
  "loop_cpp i argc argv w =
     (if i <s argc
      then (case argv (sint i) of
              None \<Rightarrow> Some (Inl Argv_Out_Of_Range)
            | Some a \<Rightarrow>
                (case printf ''%s\<newline>'' [a] w of
                   Inl e \<Rightarrow> Some (Inl e)
                 | Inr w' \<Rightarrow> loop_cpp (i + 1) argc argv w'))
      else Some (Inr w))"

definition main_cpp ::
  "c_int \<Rightarrow> argv \<Rightarrow> 'a world_scheme \<Rightarrow> (fault + c_int \<times> 'a world_scheme) option" where
  "main_cpp argc argv w =
     (case printf ''===HEDRON_COMPILE_COMMANDS_BEGIN_ARGS===\<newline>'' [] w of
        Inl e \<Rightarrow> Some (Inl e)
      | Inr w1 \<Rightarrow>
          (case loop_cpp 1 argc argv w1 of
             None \<Rightarrow> None
           | Some (Inl e) \<Rightarrow> Some (Inl e)
           | Some (Inr w2) \<Rightarrow>
               (case printf ''===HEDRON_COMPILE_COMMANDS_END_ARGS===\<newline>'' [] w2 of
                  Inl e \<Rightarrow> Some (Inl e)
                | Inr w3 \<Rightarrow> Some (Inr (1, w3)))))"

subsection \<open>Entering \<open>main\<close>\<close>

text \<open>
  A process started as \<open>name arg1 ... argN\<close> enters \<open>main\<close> with \<open>argc = N + 1\<close>,
  \<open>argv[0] = name\<close> and \<open>argv[k] = argk\<close>; \<open>argv[argc]\<close> is the null pointer.
  \<open>invoked argc argv name args\<close> says that \<open>argc\<close> and \<open>argv\<close> are the parameters of
  \<open>main\<close> in such a process. (Since \<open>argc\<close> is an \<open>int\<close>, there is such a process only
  for \<open>N + 1 < 2 ^ 31\<close>.)
\<close>

definition argv_of :: "string list \<Rightarrow> argv" where
  "argv_of xs k = (if 0 \<le> k \<and> k < int (length xs) then Some (xs ! nat k) else None)"

definition invoked :: "c_int \<Rightarrow> argv \<Rightarrow> string \<Rightarrow> string list \<Rightarrow> bool" where
  "invoked argc argv name args =
     (sint argc = int (Suc (length args)) \<and> argv = argv_of (name # args))"

section \<open>Properties of the loop\<close>

text \<open>Below the loop bound the counter does not wrap.\<close>

lemma sint_succ:
  fixes i argc :: c_int
  assumes "i <s argc"
  shows "sint (i + 1) = sint i + 1"
proof -
  have lt: "sint i < sint argc" using assms by (simp add: word_sless_alt)
  have "sint argc < 2 ^ 31" using sint_lt [of argc] by simp
  moreover have "- (2 ^ 31) \<le> sint i" using sint_ge [of i] by simp
  ultimately have "signed_take_bit 31 (sint i + 1) = sint i + 1"
    using lt by (intro signed_take_bit_int_eq_self) simp_all
  then show ?thesis by (simp add: sint_word_ariths)
qed

lemma sint_argc:
  assumes "n < 2 ^ 31"
  shows "sint (word_of_nat n :: c_int) = int n"
proof -
  have "int n < 2 ^ 31" using assms by (metis of_nat_less_iff of_nat_numeral of_nat_power)
  then have "signed_take_bit 31 (int n) = int n"
    by (intro signed_take_bit_int_eq_self) simp_all
  then show ?thesis by (simp add: signed_of_nat)
qed

lemma loop_cc_exit: "\<not> i <s argc \<Longrightarrow> loop_cc i argc argv w = Some (Inr w)"
  by (simp add: loop_cc.simps)

lemma loop_cc_step:
  "i <s argc \<Longrightarrow> argv (sint i) = Some a \<Longrightarrow>
   loop_cc i argc argv w =
     loop_cc (i + 1) argc argv (cout_insert ''\<newline>'' (cout_insert a w))"
  by (subst loop_cc.simps) simp

lemma loop_cc_fault:
  "i <s argc \<Longrightarrow> argv (sint i) = None \<Longrightarrow>
   loop_cc i argc argv w = Some (Inl Argv_Out_Of_Range)"
  by (subst loop_cc.simps) simp

text \<open>The loop returns, whatever \<open>argc\<close> and \<open>argv\<close> are: \<open>argc - i\<close> decreases.\<close>

lemma loop_cc_returns: "\<exists>r. loop_cc i argc argv (w :: 'a world_scheme) = Some r"
proof (induction "nat (sint argc - sint i)" arbitrary: i w)
  case 0
  then have "\<not> i <s argc" by (simp add: word_sless_alt)
  then show ?case by (simp add: loop_cc_exit)
next
  case (Suc n)
  show ?case
  proof (cases "i <s argc")
    case False
    then show ?thesis by (simp add: loop_cc_exit)
  next
    case True
    then have "n = nat (sint argc - sint (i + 1))"
      using Suc.hyps(2) by (simp add: sint_succ)
    then have IH: "\<And>w :: 'a world_scheme. \<exists>r. loop_cc (i + 1) argc argv w = Some r"
      using Suc.hyps(1) by blast
    show ?thesis
    proof (cases "argv (sint i)")
      case None
      with True show ?thesis by (simp add: loop_cc_fault)
    next
      case (Some a)
      with True IH show ?thesis by (simp add: loop_cc_step)
    qed
  qed
qed

text \<open>The loop looks at \<open>argv\<close> only from \<open>i\<close> up to \<open>argc - 1\<close>.\<close>

lemma loop_cc_reads:
  "(\<forall>k. sint i \<le> k \<and> k < sint argc \<longrightarrow> argv k = argv' k) \<Longrightarrow>
   loop_cc i argc argv (w :: 'a world_scheme) = loop_cc i argc argv' w"
proof (induction "nat (sint argc - sint i)" arbitrary: i w)
  case 0
  then have "\<not> i <s argc" by (simp add: word_sless_alt)
  then show ?case by (simp add: loop_cc_exit)
next
  case (Suc n)
  show ?case
  proof (cases "i <s argc")
    case False
    then show ?thesis by (simp add: loop_cc_exit)
  next
    case True
    then have next_i: "sint (i + 1) = sint i + 1" by (rule sint_succ)
    from True have here: "argv (sint i) = argv' (sint i)"
      using Suc.prems by (simp add: word_sless_alt)
    have "n = nat (sint argc - sint (i + 1))"
      using Suc.hyps(2) by (simp add: next_i)
    moreover have "\<forall>k. sint (i + 1) \<le> k \<and> k < sint argc \<longrightarrow> argv k = argv' k"
      using Suc.prems by (simp add: next_i)
    ultimately have IH:
      "\<And>w :: 'a world_scheme. loop_cc (i + 1) argc argv w = loop_cc (i + 1) argc argv' w"
      using Suc.hyps(1) by blast
    show ?thesis
    proof (cases "argv (sint i)")
      case None
      with True here show ?thesis by (simp add: loop_cc_fault)
    next
      case (Some a)
      then have there: "argv' (sint i) = Some a" using here by simp
      show ?thesis
        using True Some there IH
        by (simp add: loop_cc_step [of i argc argv a] loop_cc_step [of i argc argv' a])
    qed
  qed
qed

text \<open>Where every entry from \<open>i\<close> up to \<open>argc - 1\<close> is a string, the loop only appends.\<close>

lemma loop_cc_readable:
  "(\<forall>k. sint i \<le> k \<and> k < sint argc \<longrightarrow> argv k \<noteq> None) \<Longrightarrow>
   \<exists>out. loop_cc i argc argv (w :: 'a world_scheme) = Some (Inr (w\<lparr>stdout := stdout w @ out\<rparr>))"
proof (induction "nat (sint argc - sint i)" arbitrary: i w)
  case 0
  then have "\<not> i <s argc" by (simp add: word_sless_alt)
  then have "loop_cc i argc argv w = Some (Inr (w\<lparr>stdout := stdout w @ []\<rparr>))"
    by (simp add: loop_cc_exit)
  then show ?case by blast
next
  case (Suc n)
  show ?case
  proof (cases "i <s argc")
    case False
    then have "loop_cc i argc argv w = Some (Inr (w\<lparr>stdout := stdout w @ []\<rparr>))"
      by (simp add: loop_cc_exit)
    then show ?thesis by blast
  next
    case True
    then have next_i: "sint (i + 1) = sint i + 1" by (rule sint_succ)
    from True obtain a where here: "argv (sint i) = Some a"
      using Suc.prems by (auto simp: word_sless_alt)
    define w1 where "w1 = cout_insert ''\<newline>'' (cout_insert a w)"
    have "n = nat (sint argc - sint (i + 1))"
      using Suc.hyps(2) by (simp add: next_i)
    moreover have "\<forall>k. sint (i + 1) \<le> k \<and> k < sint argc \<longrightarrow> argv k \<noteq> None"
      using Suc.prems by (simp add: next_i)
    ultimately obtain out where
      "loop_cc (i + 1) argc argv w1 = Some (Inr (w1\<lparr>stdout := stdout w1 @ out\<rparr>))"
      using Suc.hyps(1) by blast
    then have "loop_cc i argc argv w =
        Some (Inr (w\<lparr>stdout := stdout w @ (a @ ''\<newline>'' @ out)\<rparr>))"
      using True here by (simp add: loop_cc_step [of i argc argv a] w1_def cout_insert_def)
    then show ?thesis by blast
  qed
qed

text \<open>What the loop appends when the entries from \<open>i\<close> on are the strings \<open>as\<close>.\<close>

lemma loop_cc_echo:
  "sint argc = sint i + int (length as) \<Longrightarrow>
   (\<forall>j < length as. argv (sint i + int j) = Some (as ! j)) \<Longrightarrow>
   loop_cc i argc argv w =
     Some (Inr (w\<lparr>stdout := stdout w @ concat (map (\<lambda>a. a @ ''\<newline>'') as)\<rparr>))"
proof (induction as arbitrary: i w)
  case Nil
  then have "\<not> i <s argc" by (simp add: word_sless_alt)
  then show ?case by (simp add: loop_cc_exit)
next
  case (Cons a as)
  have guard: "i <s argc" using Cons.prems(1) by (simp add: word_sless_alt)
  then have next_i: "sint (i + 1) = sint i + 1" by (rule sint_succ)
  have here: "argv (sint i) = Some a" using Cons.prems(2) by fastforce
  have len: "sint argc = sint (i + 1) + int (length as)"
    using Cons.prems(1) by (simp add: next_i)
  have rest: "\<forall>j < length as. argv (sint (i + 1) + int j) = Some (as ! j)"
  proof (intro allI impI)
    fix j assume "j < length as"
    then have "argv (sint i + int (Suc j)) = Some ((a # as) ! Suc j)"
      using Cons.prems(2) by (metis Suc_less_eq length_Cons)
    then show "argv (sint (i + 1) + int j) = Some (as ! j)"
      by (simp add: next_i add.assoc)
  qed
  show ?case
    using guard here Cons.IH [OF len rest]
    by (simp add: loop_cc_step [of i argc argv a] cout_insert_def)
qed

section \<open>The two programs agree\<close>

lemma format_line: "format ''%s\<newline>'' [a] = Some (a @ ''\<newline>'')"
  by simp

lemma format_begin:
  "format ''===HEDRON_COMPILE_COMMANDS_BEGIN_ARGS===\<newline>'' [] =
     Some ''===HEDRON_COMPILE_COMMANDS_BEGIN_ARGS===\<newline>''"
  by simp

lemma format_end:
  "format ''===HEDRON_COMPILE_COMMANDS_END_ARGS===\<newline>'' [] =
     Some ''===HEDRON_COMPILE_COMMANDS_END_ARGS===\<newline>''"
  by simp

lemma printf_line:
  "printf ''%s\<newline>'' [a] w = Inr (cout_insert ''\<newline>'' (cout_insert a w))"
  by (simp add: printf_def cout_insert_def)

lemma printf_begin:
  "printf ''===HEDRON_COMPILE_COMMANDS_BEGIN_ARGS===\<newline>'' [] w =
     Inr (cout_insert ''===HEDRON_COMPILE_COMMANDS_BEGIN_ARGS===\<newline>'' w)"
  unfolding printf_def format_begin cout_insert_def by simp

lemma printf_end:
  "printf ''===HEDRON_COMPILE_COMMANDS_END_ARGS===\<newline>'' [] w =
     Inr (cout_insert ''===HEDRON_COMPILE_COMMANDS_END_ARGS===\<newline>'' w)"
  unfolding printf_def format_end cout_insert_def by simp

lemma loop_cpp_cc: "loop_cpp i argc argv (w :: 'a world_scheme) = loop_cc i argc argv w"
proof (induction "nat (sint argc - sint i)" arbitrary: i w)
  case 0
  then have "\<not> i <s argc" by (simp add: word_sless_alt)
  then show ?case by (simp add: loop_cc.simps loop_cpp.simps)
next
  case (Suc n)
  show ?case
  proof (cases "i <s argc")
    case False
    then show ?thesis by (simp add: loop_cc.simps loop_cpp.simps)
  next
    case True
    then have "n = nat (sint argc - sint (i + 1))"
      using Suc.hyps(2) by (simp add: sint_succ)
    then have IH:
      "\<And>w :: 'a world_scheme. loop_cpp (i + 1) argc argv w = loop_cc (i + 1) argc argv w"
      using Suc.hyps(1) by blast
    show ?thesis
      by (subst loop_cpp.simps, subst loop_cc.simps)
         (simp add: True printf_line IH split: option.split)
  qed
qed

lemma main_cpp_cc: "main_cpp argc argv w = main_cc argc argv w"
  unfolding main_cpp_def main_cc_def printf_begin printf_end loop_cpp_cc
  by (simp split: option.split sum.split)

section \<open>Runs of a started process\<close>

lemma argv_of_args:
  "j < length args \<Longrightarrow> argv_of (name # args) (1 + int j) = Some (args ! j)"
  by (simp add: argv_of_def nat_add_distrib)

lemma invoked_main_cc:
  assumes "invoked argc argv name args"
  shows "main_cc argc argv w =
     Some (Inr (1, w\<lparr>stdout := stdout w
        @ ''===HEDRON_COMPILE_COMMANDS_BEGIN_ARGS===\<newline>''
        @ concat (map (\<lambda>a. a @ ''\<newline>'') args)
        @ ''===HEDRON_COMPILE_COMMANDS_END_ARGS===\<newline>''\<rparr>))"
proof -
  have "sint argc = sint (1 :: c_int) + int (length args)"
    using assms by (simp add: invoked_def)
  moreover have "\<forall>j < length args. argv (sint (1 :: c_int) + int j) = Some (args ! j)"
    using assms by (simp add: invoked_def argv_of_args)
  ultimately show ?thesis
    by (simp add: main_cc_def loop_cc_echo cout_insert_def)
qed

lemma invoked_main_cpp:
  assumes "invoked argc argv name args"
  shows "main_cpp argc argv w =
     Some (Inr (1, w\<lparr>stdout := stdout w
        @ ''===HEDRON_COMPILE_COMMANDS_BEGIN_ARGS===\<newline>''
        @ concat (map (\<lambda>a. a @ ''\<newline>'') args)
        @ ''===HEDRON_COMPILE_COMMANDS_END_ARGS===\<newline>''\<rparr>))"
  by (simp only: main_cpp_cc invoked_main_cc [OF assms])

text \<open>The parameters of \<open>main\<close> for a concrete command line.\<close>

lemma invoked_argv_of:
  "Suc (length args) < 2 ^ 31 \<Longrightarrow>
   invoked (word_of_nat (Suc (length args))) (argv_of (name # args)) name args"
  unfolding invoked_def using sint_argc [of "Suc (length args)"] by simp

section \<open>Properties of \<open>main\<close>\<close>

text \<open>\<open>main\<close> looks at \<open>argv\<close> only from 1 up to \<open>argc - 1\<close>.\<close>

lemma main_cc_reads:
  assumes "\<forall>k. 1 \<le> k \<and> k < sint argc \<longrightarrow> argv k = argv' k"
  shows "main_cc argc argv w = main_cc argc argv' w"
proof -
  have "\<forall>k. sint (1 :: c_int) \<le> k \<and> k < sint argc \<longrightarrow> argv k = argv' k"
    using assms by simp
  then show ?thesis
    unfolding main_cc_def by (simp only: loop_cc_reads [of 1 argc argv argv'])
qed

lemma main_cc_readable:
  assumes "\<forall>k. 1 \<le> k \<and> k < sint argc \<longrightarrow> argv k \<noteq> None"
  shows "\<exists>out. main_cc argc argv w = Some (Inr (1, w\<lparr>stdout := stdout w @ out\<rparr>))"
proof -
  define w0 where "w0 = cout_insert ''===HEDRON_COMPILE_COMMANDS_BEGIN_ARGS===\<newline>'' w"
  have "\<forall>k. sint (1 :: c_int) \<le> k \<and> k < sint argc \<longrightarrow> argv k \<noteq> None"
    using assms by simp
  then obtain out where "loop_cc 1 argc argv w0 = Some (Inr (w0\<lparr>stdout := stdout w0 @ out\<rparr>))"
    using loop_cc_readable [of 1 argc argv w0] by blast
  then have "main_cc argc argv w =
      Some (Inr (1, w\<lparr>stdout := stdout w @ (''===HEDRON_COMPILE_COMMANDS_BEGIN_ARGS===\<newline>''
        @ out @ ''===HEDRON_COMPILE_COMMANDS_END_ARGS===\<newline>'')\<rparr>))"
    by (simp add: main_cc_def w0_def cout_insert_def)
  then show ?thesis by blast
qed

lemma main_cc_no_args:
  assumes "sint argc \<le> 1"
  shows "main_cc argc argv w =
     Some (Inr (1, w\<lparr>stdout := stdout w
        @ ''===HEDRON_COMPILE_COMMANDS_BEGIN_ARGS===\<newline>''
        @ ''===HEDRON_COMPILE_COMMANDS_END_ARGS===\<newline>''\<rparr>))"
proof -
  have "\<not> (1 :: c_int) <s argc" using assms by (simp add: word_sless_alt)
  then show ?thesis by (simp add: main_cc_def loop_cc_exit cout_insert_def)
qed

text \<open>
  Runs with equal results wrote the same argument lines, and the lines of a single
  argument without a newline are the lines of no other argument list.
\<close>

lemma lines_end:
  "xs \<noteq> [] \<Longrightarrow> \<exists>r. concat (map (\<lambda>a. a @ ''\<newline>'') xs) = r @ ''\<newline>''"
proof (induction xs rule: rev_induct)
  case Nil
  then show ?case by simp
next
  case (snoc x xs)
  have "concat (map (\<lambda>a. a @ ''\<newline>'') (xs @ [x])) =
      (concat (map (\<lambda>a. a @ ''\<newline>'') xs) @ x) @ ''\<newline>''"
    by simp
  then show ?case by blast
qed

lemma single_line_unique:
  assumes "CHR 0x0A \<notin> set s"
    and "concat (map (\<lambda>a. a @ ''\<newline>'') xs) = s @ ''\<newline>''"
  shows "xs = [s]"
proof (cases xs)
  case Nil
  with assms(2) show ?thesis by simp
next
  case (Cons a rest)
  show ?thesis
  proof (cases "rest = []")
    case True
    with Cons assms(2) show ?thesis by simp
  next
    case False
    then obtain r where "concat (map (\<lambda>a. a @ ''\<newline>'') rest) = r @ ''\<newline>''"
      using lines_end by blast
    then have "(a @ ''\<newline>'' @ r) @ ''\<newline>'' = s @ ''\<newline>''"
      using Cons assms(2) by simp
    then have "a @ ''\<newline>'' @ r = s" by (simp only: append_same_eq)
    then have "CHR 0x0A \<in> set s" by auto
    with assms(1) show ?thesis by simp
  qed
qed

lemma invoked_same_lines:
  assumes "invoked argc argv name args" and "invoked argc' argv' name' args'"
    and "main_cc argc argv w = main_cc argc' argv' w"
  shows "concat (map (\<lambda>a. a @ ''\<newline>'') args) = concat (map (\<lambda>a. a @ ''\<newline>'') args')"
proof -
  let ?out = "\<lambda>xs. stdout w @ ''===HEDRON_COMPILE_COMMANDS_BEGIN_ARGS===\<newline>''
        @ concat (map (\<lambda>a. a @ ''\<newline>'') xs)
        @ ''===HEDRON_COMPILE_COMMANDS_END_ARGS===\<newline>''"
  have "w\<lparr>stdout := ?out args\<rparr> = w\<lparr>stdout := ?out args'\<rparr>"
    using assms(3) by (simp only: invoked_main_cc [OF assms(1)] invoked_main_cc [OF assms(2)]) simp
  then have "stdout (w\<lparr>stdout := ?out args\<rparr>) = stdout (w\<lparr>stdout := ?out args'\<rparr>)"
    by (rule arg_cong)
  then show ?thesis by simp
qed

section \<open>The programs on concrete command lines\<close>

text \<open>
  The definitions compute. The first two runs are scenarios of the specification; in
  the third \<open>argc\<close> claims one entry more than the array has, and the run ends in the
  fault of reading outside it; the last shows a directive outside the modelled part of
  \<open>printf\<close>.
\<close>

lemma run_cc_two_args:
  "main_cc 3 (argv_of [''print_args'', ''-c'', ''foo.c''])
      \<lparr>stdin = [], stdout = [], stderr = []\<rparr> =
     Some (Inr (1, \<lparr>stdin = [],
       stdout = ''===HEDRON_COMPILE_COMMANDS_BEGIN_ARGS===\<newline>-c\<newline>foo.c\<newline>===HEDRON_COMPILE_COMMANDS_END_ARGS===\<newline>'',
       stderr = []\<rparr>))"
  by (simp add: main_cc_def loop_cc.simps argv_of_def cout_insert_def word_sless_alt)

lemma run_cpp_empty_arg:
  "main_cpp 2 (argv_of [''print_args'', ''''])
      \<lparr>stdin = [], stdout = [], stderr = []\<rparr> =
     Some (Inr (1, \<lparr>stdin = [],
       stdout = ''===HEDRON_COMPILE_COMMANDS_BEGIN_ARGS===\<newline>\<newline>===HEDRON_COMPILE_COMMANDS_END_ARGS===\<newline>'',
       stderr = []\<rparr>))"
  by (simp add: main_cpp_def loop_cpp.simps argv_of_def printf_def word_sless_alt)

lemma run_cc_short_array:
  "main_cc 3 (argv_of [''print_args'', ''-c''])
      \<lparr>stdin = [], stdout = [], stderr = []\<rparr> = Some (Inl Argv_Out_Of_Range)"
  by (simp add: main_cc_def loop_cc.simps argv_of_def cout_insert_def word_sless_alt)

lemma printf_other_directive: "printf ''%d'' [''x''] \<lparr>stdin = [], stdout = [], stderr = []\<rparr> = Inl Bad_Format"
  by (simp add: printf_def)

section \<open>Specified behaviour\<close>

text \<open>
  C1. For every sequence of strings \<open>args\<close>, the empty one included, a run of the
  program with \<open>args\<close> appends to standard output the line
  \<open>===HEDRON_COMPILE_COMMANDS_BEGIN_ARGS===\<close> and a newline, then every element of
  \<open>args\<close> as it is followed by a newline, in the order given, then the line
  \<open>===HEDRON_COMPILE_COMMANDS_END_ARGS===\<close> and a newline. With no arguments these are
  the two marker lines and nothing between them. This holds of both programs.
\<close>

theorem echo_output:
  assumes "invoked argc argv name args"
  shows "main_cc argc argv w =
           Some (Inr (1, w\<lparr>stdout := stdout w
              @ ''===HEDRON_COMPILE_COMMANDS_BEGIN_ARGS===\<newline>''
              @ concat (map (\<lambda>a. a @ ''\<newline>'') args)
              @ ''===HEDRON_COMPILE_COMMANDS_END_ARGS===\<newline>''\<rparr>))
       \<and> main_cpp argc argv w =
           Some (Inr (1, w\<lparr>stdout := stdout w
              @ ''===HEDRON_COMPILE_COMMANDS_BEGIN_ARGS===\<newline>''
              @ concat (map (\<lambda>a. a @ ''\<newline>'') args)
              @ ''===HEDRON_COMPILE_COMMANDS_END_ARGS===\<newline>''\<rparr>))"
  using assms by (simp only: invoked_main_cc invoked_main_cpp)

theorem echo_output_witness:
  "invoked 1 (argv_of [''print_args'']) ''print_args'' []
   \<and> main_cc 1 (argv_of [''print_args'']) \<lparr>stdin = [], stdout = [], stderr = []\<rparr> =
       Some (Inr (1, \<lparr>stdin = [],
         stdout = ''===HEDRON_COMPILE_COMMANDS_BEGIN_ARGS===\<newline>===HEDRON_COMPILE_COMMANDS_END_ARGS===\<newline>'',
         stderr = []\<rparr>))
   \<and> invoked 3 (argv_of [''print_args'', ''-c'', ''foo.c'']) ''print_args'' [''-c'', ''foo.c'']
   \<and> main_cpp 3 (argv_of [''print_args'', ''-c'', ''foo.c'']) \<lparr>stdin = [], stdout = [], stderr = []\<rparr> =
       Some (Inr (1, \<lparr>stdin = [],
         stdout = ''===HEDRON_COMPILE_COMMANDS_BEGIN_ARGS===\<newline>-c\<newline>foo.c\<newline>===HEDRON_COMPILE_COMMANDS_END_ARGS===\<newline>'',
         stderr = []\<rparr>))"
proof -
  have none: "invoked 1 (argv_of [''print_args'']) ''print_args'' []"
    by (simp add: invoked_def)
  have two: "invoked 3 (argv_of [''print_args'', ''-c'', ''foo.c'']) ''print_args''
      [''-c'', ''foo.c'']"
    by (simp add: invoked_def)
  show ?thesis
    using none two
      echo_output [OF none, of "\<lparr>stdin = [], stdout = [], stderr = []\<rparr>"]
      echo_output [OF two, of "\<lparr>stdin = [], stdout = [], stderr = []\<rparr>"]
    by simp
qed

text \<open>
  C2. Whatever the arguments and however many, the program returns from \<open>main\<close> with
  exit code exactly 1.
\<close>

theorem exit_code_one:
  assumes "invoked argc argv name args"
  shows "(\<exists>w'. main_cc argc argv w = Some (Inr (1, w')))
       \<and> (\<exists>w'. main_cpp argc argv w = Some (Inr (1, w')))"
  using assms by (simp add: invoked_main_cc invoked_main_cpp)

theorem exit_code_one_witness:
  "invoked 2 (argv_of [''print_args'', ''--flag=value with spaces'']) ''print_args''
      [''--flag=value with spaces'']
   \<and> (\<exists>w'. main_cc 2 (argv_of [''print_args'', ''--flag=value with spaces''])
              \<lparr>stdin = [], stdout = [], stderr = []\<rparr> = Some (Inr (1, w')))
   \<and> (\<exists>w'. main_cpp 2 (argv_of [''print_args'', ''--flag=value with spaces''])
              \<lparr>stdin = [], stdout = [], stderr = []\<rparr> = Some (Inr (1, w')))"
proof -
  have run: "invoked 2 (argv_of [''print_args'', ''--flag=value with spaces'']) ''print_args''
      [''--flag=value with spaces'']"
    by (simp add: invoked_def)
  show ?thesis
    using run exit_code_one [OF run, of "\<lparr>stdin = [], stdout = [], stderr = []\<rparr>"]
    by simp
qed

text \<open>
  C3. \<open>print_args.cc\<close> and \<open>print_args.cpp\<close> behave the same: for every \<open>argc\<close> and
  \<open>argv\<close> they write the same bytes to standard output and return the same exit code.
\<close>

theorem cc_cpp_equivalent: "main_cpp argc argv w = main_cc argc argv w"
  unfolding main_cpp_def main_cc_def printf_begin printf_end loop_cpp_cc
  by (simp split: option.split sum.split)

text \<open>
  C4. Every argument after the program name is written to standard output as its exact
  text, with nothing escaped, quoted or changed: the argument at position \<open>k\<close> stands in
  the output right after the lines of the arguments before it, followed by one newline
  and the lines of the arguments after it. An empty argument gives an empty line, and
  white space inside an argument stays as it is.
\<close>

theorem argument_verbatim:
  assumes "invoked argc argv name args" and "k < length args"
  shows "main_cc argc argv w =
           Some (Inr (1, w\<lparr>stdout := stdout w
              @ ''===HEDRON_COMPILE_COMMANDS_BEGIN_ARGS===\<newline>''
              @ concat (map (\<lambda>a. a @ ''\<newline>'') (take k args))
              @ args ! k @ ''\<newline>''
              @ concat (map (\<lambda>a. a @ ''\<newline>'') (drop (Suc k) args))
              @ ''===HEDRON_COMPILE_COMMANDS_END_ARGS===\<newline>''\<rparr>))
       \<and> main_cpp argc argv w =
           Some (Inr (1, w\<lparr>stdout := stdout w
              @ ''===HEDRON_COMPILE_COMMANDS_BEGIN_ARGS===\<newline>''
              @ concat (map (\<lambda>a. a @ ''\<newline>'') (take k args))
              @ args ! k @ ''\<newline>''
              @ concat (map (\<lambda>a. a @ ''\<newline>'') (drop (Suc k) args))
              @ ''===HEDRON_COMPILE_COMMANDS_END_ARGS===\<newline>''\<rparr>))"
proof -
  have "args = take k args @ args ! k # drop (Suc k) args"
    using assms(2) by (rule id_take_nth_drop)
  then have "concat (map (\<lambda>a. a @ ''\<newline>'') args) =
      concat (map (\<lambda>a. a @ ''\<newline>'') (take k args)) @ args ! k @ ''\<newline>''
        @ concat (map (\<lambda>a. a @ ''\<newline>'') (drop (Suc k) args))"
    by (metis append.assoc concat.simps(2) concat_append list.simps(9) map_append)
  then show ?thesis
    using assms(1) by (simp add: invoked_main_cc invoked_main_cpp)
qed

theorem argument_verbatim_witness:
  "invoked 4 (argv_of [''print_args'', ''-o'', [], ''a b'' @ [CHR 0x09] @ ''c'']) ''print_args''
      [''-o'', [], ''a b'' @ [CHR 0x09] @ ''c'']
   \<and> 1 < length [''-o'', [], ''a b'' @ [CHR 0x09] @ ''c'']
   \<and> main_cc 4 (argv_of [''print_args'', ''-o'', [], ''a b'' @ [CHR 0x09] @ ''c''])
        \<lparr>stdin = [], stdout = [], stderr = []\<rparr> =
       Some (Inr (1, \<lparr>stdin = [],
         stdout = ''===HEDRON_COMPILE_COMMANDS_BEGIN_ARGS===\<newline>-o\<newline>'' @ [] @ ''\<newline>''
            @ ''a b'' @ [CHR 0x09] @ ''c'' @ ''\<newline>===HEDRON_COMPILE_COMMANDS_END_ARGS===\<newline>'',
         stderr = []\<rparr>))
   \<and> main_cpp 4 (argv_of [''print_args'', ''-o'', [], ''a b'' @ [CHR 0x09] @ ''c''])
        \<lparr>stdin = [], stdout = [], stderr = []\<rparr> =
       Some (Inr (1, \<lparr>stdin = [],
         stdout = ''===HEDRON_COMPILE_COMMANDS_BEGIN_ARGS===\<newline>-o\<newline>'' @ [] @ ''\<newline>''
            @ ''a b'' @ [CHR 0x09] @ ''c'' @ ''\<newline>===HEDRON_COMPILE_COMMANDS_END_ARGS===\<newline>'',
         stderr = []\<rparr>))"
proof -
  have run: "invoked 4 (argv_of [''print_args'', ''-o'', [], ''a b'' @ [CHR 0x09] @ ''c''])
      ''print_args'' [''-o'', [], ''a b'' @ [CHR 0x09] @ ''c'']"
    by (simp add: invoked_def)
  have pos: "1 < length [''-o'', [], ''a b'' @ [CHR 0x09] @ ''c'']"
    by simp
  show ?thesis
    using run argument_verbatim [OF run pos, of "\<lparr>stdin = [], stdout = [], stderr = []\<rparr>"]
    by simp
qed

text \<open>
  C5. Entry 0 of \<open>argv\<close>, the name the program was called by, is never written: the
  result of \<open>main\<close> does not change when entry 0 is replaced by anything, readable or
  not. So two runs that differ only in the program name write the same output and
  return the same exit code.
\<close>

theorem program_name_ignored:
  assumes "invoked argc argv name args" and "invoked argc' argv' name' args"
  shows "main_cc argc argv w = main_cc argc' argv' w
       \<and> main_cpp argc argv w = main_cpp argc' argv' w
       \<and> main_cc argc (argv(0 := x)) w = main_cc argc argv w
       \<and> main_cpp argc (argv(0 := x)) w = main_cpp argc argv w"
proof -
  have "main_cc argc (argv(0 := x)) w = main_cc argc argv w"
    by (rule main_cc_reads) simp
  then show ?thesis
    by (simp add: main_cpp_cc invoked_main_cc [OF assms(1)] invoked_main_cc [OF assms(2)])
qed

theorem program_name_ignored_witness:
  "invoked 3 (argv_of [''clang'', ''-c'', ''foo.c'']) ''clang'' [''-c'', ''foo.c'']
   \<and> invoked 3 (argv_of [''/usr/bin/emcc'', ''-c'', ''foo.c'']) ''/usr/bin/emcc'' [''-c'', ''foo.c'']
   \<and> main_cc 3 (argv_of [''clang'', ''-c'', ''foo.c'']) \<lparr>stdin = [], stdout = [], stderr = []\<rparr> =
       main_cc 3 (argv_of [''/usr/bin/emcc'', ''-c'', ''foo.c'']) \<lparr>stdin = [], stdout = [], stderr = []\<rparr>
   \<and> main_cpp 3 (argv_of [''clang'', ''-c'', ''foo.c'']) \<lparr>stdin = [], stdout = [], stderr = []\<rparr> =
       main_cpp 3 (argv_of [''/usr/bin/emcc'', ''-c'', ''foo.c'']) \<lparr>stdin = [], stdout = [], stderr = []\<rparr>"
proof -
  have one: "invoked 3 (argv_of [''clang'', ''-c'', ''foo.c'']) ''clang'' [''-c'', ''foo.c'']"
    by (simp add: invoked_def)
  have other: "invoked 3 (argv_of [''/usr/bin/emcc'', ''-c'', ''foo.c'']) ''/usr/bin/emcc''
      [''-c'', ''foo.c'']"
    by (simp add: invoked_def)
  show ?thesis
    using one other program_name_ignored [OF one other, of "\<lparr>stdin = [], stdout = [], stderr = []\<rparr>"]
    by simp
qed

text \<open>
  C6. The program runs to completion. The loop returns from every counter value, bound
  and array, since the distance to the bound shrinks with each round; and a started
  process passes the loop without a fault and reaches \<open>return 1\<close>. The loop guard is the
  only condition in either \<open>main\<close>.
\<close>

theorem runs_to_completion:
  assumes "invoked argc argv name args"
  shows "(\<exists>r. loop_cc i bound array w = Some r)
       \<and> (\<exists>r. loop_cpp i bound array w = Some r)
       \<and> (\<exists>w'. loop_cc 1 argc argv w = Some (Inr w'))
       \<and> (\<exists>w'. loop_cpp 1 argc argv w = Some (Inr w'))
       \<and> (\<exists>w'. main_cc argc argv w = Some (Inr (1, w')))
       \<and> (\<exists>w'. main_cpp argc argv w = Some (Inr (1, w')))"
proof -
  have "sint argc = sint (1 :: c_int) + int (length args)"
    using assms by (simp add: invoked_def)
  moreover have "\<forall>j < length args. argv (sint (1 :: c_int) + int j) = Some (args ! j)"
    using assms by (simp add: invoked_def argv_of_args)
  ultimately have "\<exists>w'. loop_cc 1 argc argv w = Some (Inr w')"
    by (simp add: loop_cc_echo)
  then show ?thesis
    using assms
    by (simp add: loop_cc_returns loop_cpp_cc invoked_main_cc invoked_main_cpp)
qed

theorem runs_to_completion_witness:
  "invoked 3 (argv_of [''print_args'', ''-c'', ''foo.c'']) ''print_args'' [''-c'', ''foo.c'']
   \<and> (\<exists>r. loop_cc 1 3 (argv_of [''print_args'', ''-c'', ''foo.c'']) \<lparr>stdin = [], stdout = [], stderr = []\<rparr> = Some r)
   \<and> (\<exists>r. loop_cpp 1 3 (argv_of [''print_args'', ''-c'', ''foo.c'']) \<lparr>stdin = [], stdout = [], stderr = []\<rparr> = Some r)
   \<and> (\<exists>w'. loop_cc 1 3 (argv_of [''print_args'', ''-c'', ''foo.c'']) \<lparr>stdin = [], stdout = [], stderr = []\<rparr> = Some (Inr w'))
   \<and> (\<exists>w'. loop_cpp 1 3 (argv_of [''print_args'', ''-c'', ''foo.c'']) \<lparr>stdin = [], stdout = [], stderr = []\<rparr> = Some (Inr w'))
   \<and> (\<exists>w'. main_cc 3 (argv_of [''print_args'', ''-c'', ''foo.c'']) \<lparr>stdin = [], stdout = [], stderr = []\<rparr> = Some (Inr (1, w')))
   \<and> (\<exists>w'. main_cpp 3 (argv_of [''print_args'', ''-c'', ''foo.c'']) \<lparr>stdin = [], stdout = [], stderr = []\<rparr> = Some (Inr (1, w')))"
proof -
  have run: "invoked 3 (argv_of [''print_args'', ''-c'', ''foo.c'']) ''print_args''
      [''-c'', ''foo.c'']"
    by (simp add: invoked_def)
  show ?thesis
    using run
      runs_to_completion [OF run, of 1 3 "argv_of [''print_args'', ''-c'', ''foo.c'']" "\<lparr>stdin = [], stdout = [], stderr = []\<rparr>"]
    by simp
qed

text \<open>
  C7. The program is deterministic, and its output depends on the arguments alone: for
  given arguments there is one exit code and one sequence of bytes which every run
  with these arguments returns and appends to standard output, whatever the program
  name, the pending standard input and the rest of the surroundings are.
\<close>

theorem output_determined_by_args:
  "\<exists>c out. \<forall>argc argv name (w :: 'a world_scheme).
      invoked argc argv name args \<longrightarrow>
        main_cc argc argv w = Some (Inr (c, w\<lparr>stdout := stdout w @ out\<rparr>))
      \<and> main_cpp argc argv w = Some (Inr (c, w\<lparr>stdout := stdout w @ out\<rparr>))"
  by (blast intro: invoked_main_cc invoked_main_cpp)

theorem output_determined_by_args_witness:
  "\<exists>c out. \<forall>name (w :: world).
      main_cc 3 (argv_of [name, ''-c'', ''foo.c'']) w =
        Some (Inr (c, w\<lparr>stdout := stdout w @ out\<rparr>))
    \<and> main_cpp 3 (argv_of [name, ''-c'', ''foo.c'']) w =
        Some (Inr (c, w\<lparr>stdout := stdout w @ out\<rparr>))"
proof -
  have run: "invoked 3 (argv_of [name, ''-c'', ''foo.c'']) name [''-c'', ''foo.c'']" for name
    by (simp add: invoked_def)
  obtain c out where "\<forall>argc argv name (w :: world).
      invoked argc argv name [''-c'', ''foo.c''] \<longrightarrow>
        main_cc argc argv w = Some (Inr (c, w\<lparr>stdout := stdout w @ out\<rparr>))
      \<and> main_cpp argc argv w = Some (Inr (c, w\<lparr>stdout := stdout w @ out\<rparr>))"
    using output_determined_by_args [of "[''-c'', ''foo.c'']"] by blast
  then show ?thesis using run by blast
qed

text \<open>
  C8. The only effect of a run is that bytes are appended to standard output: standard
  error holds what it held before, standard input is left unread, and the rest of the
  surroundings (files, network) is the same after the run as before.
\<close>

theorem only_stdout_changes:
  assumes "invoked argc argv name args"
  shows "(\<exists>c w'. main_cc argc argv w = Some (Inr (c, w'))
            \<and> stdin w' = stdin w \<and> stderr w' = stderr w \<and> world.more w' = world.more w
            \<and> (\<exists>out. stdout w' = stdout w @ out))
       \<and> (\<exists>c w'. main_cpp argc argv w = Some (Inr (c, w'))
            \<and> stdin w' = stdin w \<and> stderr w' = stderr w \<and> world.more w' = world.more w
            \<and> (\<exists>out. stdout w' = stdout w @ out))"
  using assms by (simp add: invoked_main_cc invoked_main_cpp)

theorem only_stdout_changes_witness:
  "invoked 3 (argv_of [''print_args'', ''-c'', ''foo.c'']) ''print_args'' [''-c'', ''foo.c'']
   \<and> (\<exists>c w'. main_cc 3 (argv_of [''print_args'', ''-c'', ''foo.c''])
              \<lparr>stdin = ''in'', stdout = ''out'', stderr = ''err''\<rparr> = Some (Inr (c, w'))
            \<and> stdin w' = ''in'' \<and> stderr w' = ''err'' \<and> world.more w' = ()
            \<and> (\<exists>out. stdout w' = ''out'' @ out))
   \<and> (\<exists>c w'. main_cpp 3 (argv_of [''print_args'', ''-c'', ''foo.c''])
              \<lparr>stdin = ''in'', stdout = ''out'', stderr = ''err''\<rparr> = Some (Inr (c, w'))
            \<and> stdin w' = ''in'' \<and> stderr w' = ''err'' \<and> world.more w' = ()
            \<and> (\<exists>out. stdout w' = ''out'' @ out))"
proof -
  have run: "invoked 3 (argv_of [''print_args'', ''-c'', ''foo.c'']) ''print_args''
      [''-c'', ''foo.c'']"
    by (simp add: invoked_def)
  show ?thesis
    using run
      only_stdout_changes [OF run, of "\<lparr>stdin = ''in'', stdout = ''out'', stderr = ''err''\<rparr>"]
    by simp
qed

text \<open>
  C9. The output does not determine the arguments: there are two different argument
  vectors with the same output, namely one argument with a newline inside and the two
  arguments it splits into at that newline, both vectors of C strings. So whatever
  function decodes the result of a run, some argument vector is decoded wrongly.
\<close>

theorem output_not_injective:
  "(\<exists>args args' argc argv argc' argv'. args \<noteq> args'
      \<and> invoked argc argv name args \<and> invoked argc' argv' name args'
      \<and> list_all c_string args \<and> list_all c_string args'
      \<and> main_cc argc argv w = main_cc argc' argv' w
      \<and> main_cpp argc argv w = main_cpp argc' argv' w)
   \<and> (\<forall>decode. \<exists>args argc argv. invoked argc argv name args \<and> list_all c_string args
        \<and> decode (main_cc argc argv w) \<noteq> args)
   \<and> (\<forall>decode. \<exists>args argc argv. invoked argc argv name args \<and> list_all c_string args
        \<and> decode (main_cpp argc argv w) \<noteq> args)"
proof -
  let ?one = "[''a\<newline>b'']" and ?two = "[''a'', ''b'']"
  have ne: "?one \<noteq> ?two" by simp
  have cs: "list_all c_string ?one" "list_all c_string ?two"
    by (simp_all add: c_string_def)
  have one: "invoked 2 (argv_of (name # ?one)) name ?one"
    by (simp add: invoked_def)
  have two: "invoked 3 (argv_of (name # ?two)) name ?two"
    by (simp add: invoked_def)
  have cc: "main_cc 2 (argv_of (name # ?one)) w = main_cc 3 (argv_of (name # ?two)) w"
    by (simp add: invoked_main_cc [OF one] invoked_main_cc [OF two])
  have cpp: "main_cpp 2 (argv_of (name # ?one)) w = main_cpp 3 (argv_of (name # ?two)) w"
    by (simp only: main_cpp_cc cc)
  have collide: "\<exists>args args' argc argv argc' argv'. args \<noteq> args'
      \<and> invoked argc argv name args \<and> invoked argc' argv' name args'
      \<and> list_all c_string args \<and> list_all c_string args'
      \<and> main_cc argc argv w = main_cc argc' argv' w
      \<and> main_cpp argc argv w = main_cpp argc' argv' w"
    using ne cs one two cc cpp by blast
  have no_decoder: "\<exists>args argc argv. invoked argc argv name args \<and> list_all c_string args
        \<and> decode (run argc argv) \<noteq> args"
    if "run 2 (argv_of (name # ?one)) = run 3 (argv_of (name # ?two))"
    for decode :: "'r \<Rightarrow> string list" and run
  proof (cases "decode (run 2 (argv_of (name # ?one))) = ?one")
    case True
    then have "decode (run 3 (argv_of (name # ?two))) \<noteq> ?two" using that ne by simp
    then show ?thesis using cs(2) two by blast
  next
    case False
    then show ?thesis using cs(1) one by blast
  qed
  show ?thesis
    using collide
      no_decoder [of "\<lambda>argc argv. main_cc argc argv w", OF cc]
      no_decoder [of "\<lambda>argc argv. main_cpp argc argv w", OF cpp]
    by blast
qed

text \<open>
  C9, an argument equal to a marker string: this is no instance of two argument vectors
  with the same output. A run whose only argument is the end marker string, or the
  begin marker string, has a result that no run with other arguments has, in either
  program.
\<close>

theorem sentinel_argument_no_collision:
  "\<not> (\<exists>args argc argv name argc' argv' name' (w :: world).
        args \<noteq> [''===HEDRON_COMPILE_COMMANDS_END_ARGS==='']
      \<and> invoked argc argv name args
      \<and> invoked argc' argv' name' [''===HEDRON_COMPILE_COMMANDS_END_ARGS==='']
      \<and> main_cc argc argv w = main_cc argc' argv' w)
   \<and> \<not> (\<exists>args argc argv name argc' argv' name' (w :: world).
        args \<noteq> [''===HEDRON_COMPILE_COMMANDS_END_ARGS==='']
      \<and> invoked argc argv name args
      \<and> invoked argc' argv' name' [''===HEDRON_COMPILE_COMMANDS_END_ARGS==='']
      \<and> main_cpp argc argv w = main_cpp argc' argv' w)
   \<and> \<not> (\<exists>args argc argv name argc' argv' name' (w :: world).
        args \<noteq> [''===HEDRON_COMPILE_COMMANDS_BEGIN_ARGS==='']
      \<and> invoked argc argv name args
      \<and> invoked argc' argv' name' [''===HEDRON_COMPILE_COMMANDS_BEGIN_ARGS==='']
      \<and> main_cc argc argv w = main_cc argc' argv' w)
   \<and> \<not> (\<exists>args argc argv name argc' argv' name' (w :: world).
        args \<noteq> [''===HEDRON_COMPILE_COMMANDS_BEGIN_ARGS==='']
      \<and> invoked argc argv name args
      \<and> invoked argc' argv' name' [''===HEDRON_COMPILE_COMMANDS_BEGIN_ARGS==='']
      \<and> main_cpp argc argv w = main_cpp argc' argv' w)"
proof -
  have alone: "args = [s]"
    if "CHR 0x0A \<notin> set s" and "invoked argc argv name args"
      and "invoked argc' argv' name' [s]"
      and "main_cc argc argv w = main_cc argc' argv' w"
    for s args argc argv name argc' argv' name' and w :: world
  proof -
    have "concat (map (\<lambda>a. a @ ''\<newline>'') args) = s @ ''\<newline>''"
      using invoked_same_lines [OF that(2) that(3) that(4)] by simp
    with that(1) show ?thesis by (rule single_line_unique)
  qed
  have e: "CHR 0x0A \<notin> set ''===HEDRON_COMPILE_COMMANDS_END_ARGS===''" by simp
  have b: "CHR 0x0A \<notin> set ''===HEDRON_COMPILE_COMMANDS_BEGIN_ARGS===''" by simp
  show ?thesis
    using alone [OF e] alone [OF b] by (simp only: main_cpp_cc) blast
qed

text \<open>
  C10. For every \<open>argc\<close>, and so for every \<open>argc \<ge> 0\<close>, the loop reads \<open>argv\<close> only at the
  indices 1 to \<open>argc - 1\<close>: if the entries there are strings then no run ends in the
  fault of a read outside the array, whatever the other entries are, and hiding all
  other entries does not change the result. With \<open>argc = 0\<close> the loop body is never
  entered: the program writes the two marker lines and returns 1, on any array.
\<close>

theorem argv_reads_in_range:
  "((\<forall>k. 1 \<le> k \<and> k < sint argc \<longrightarrow> argv k \<noteq> None) \<longrightarrow>
      (\<exists>out. main_cc argc argv w = Some (Inr (1, w\<lparr>stdout := stdout w @ out\<rparr>)))
    \<and> (\<exists>out. main_cpp argc argv w = Some (Inr (1, w\<lparr>stdout := stdout w @ out\<rparr>))))
   \<and> main_cc argc (\<lambda>k. if 1 \<le> k \<and> k < sint argc then argv k else None) w = main_cc argc argv w
   \<and> main_cpp argc (\<lambda>k. if 1 \<le> k \<and> k < sint argc then argv k else None) w = main_cpp argc argv w
   \<and> main_cc 0 argv w =
       Some (Inr (1, w\<lparr>stdout := stdout w
          @ ''===HEDRON_COMPILE_COMMANDS_BEGIN_ARGS===\<newline>''
          @ ''===HEDRON_COMPILE_COMMANDS_END_ARGS===\<newline>''\<rparr>))
   \<and> main_cpp 0 argv w =
       Some (Inr (1, w\<lparr>stdout := stdout w
          @ ''===HEDRON_COMPILE_COMMANDS_BEGIN_ARGS===\<newline>''
          @ ''===HEDRON_COMPILE_COMMANDS_END_ARGS===\<newline>''\<rparr>))"
proof -
  have "main_cc argc (\<lambda>k. if 1 \<le> k \<and> k < sint argc then argv k else None) w = main_cc argc argv w"
    by (rule main_cc_reads) simp
  moreover have "main_cc 0 argv w =
       Some (Inr (1, w\<lparr>stdout := stdout w
          @ ''===HEDRON_COMPILE_COMMANDS_BEGIN_ARGS===\<newline>''
          @ ''===HEDRON_COMPILE_COMMANDS_END_ARGS===\<newline>''\<rparr>))"
    by (rule main_cc_no_args) simp
  ultimately show ?thesis
    using main_cc_readable [of argc argv w] by (simp add: main_cpp_cc)
qed

theorem argv_reads_in_range_witness:
  "(\<exists>out. main_cc 3 [1 \<mapsto> ''-c'', 2 \<mapsto> ''foo.c''] \<lparr>stdin = [], stdout = [], stderr = []\<rparr> =
       Some (Inr (1, \<lparr>stdin = [], stdout = out, stderr = []\<rparr>)))
   \<and> (\<exists>out. main_cpp 3 [1 \<mapsto> ''-c'', 2 \<mapsto> ''foo.c''] \<lparr>stdin = [], stdout = [], stderr = []\<rparr> =
       Some (Inr (1, \<lparr>stdin = [], stdout = out, stderr = []\<rparr>)))
   \<and> main_cc 0 Map.empty \<lparr>stdin = [], stdout = [], stderr = []\<rparr> =
       Some (Inr (1, \<lparr>stdin = [],
         stdout = ''===HEDRON_COMPILE_COMMANDS_BEGIN_ARGS===\<newline>===HEDRON_COMPILE_COMMANDS_END_ARGS===\<newline>'',
         stderr = []\<rparr>))
   \<and> main_cpp 0 Map.empty \<lparr>stdin = [], stdout = [], stderr = []\<rparr> =
       Some (Inr (1, \<lparr>stdin = [],
         stdout = ''===HEDRON_COMPILE_COMMANDS_BEGIN_ARGS===\<newline>===HEDRON_COMPILE_COMMANDS_END_ARGS===\<newline>'',
         stderr = []\<rparr>))"
proof -
  have readable:
    "\<forall>k. 1 \<le> k \<and> k < sint (3 :: c_int) \<longrightarrow> [1 \<mapsto> ''-c'', 2 \<mapsto> ''foo.c''] k \<noteq> None"
    by auto
  show ?thesis
    using readable
      argv_reads_in_range [of 3 "[1 \<mapsto> ''-c'', 2 \<mapsto> ''foo.c'']" "\<lparr>stdin = [], stdout = [], stderr = []\<rparr>"]
      argv_reads_in_range [of 0 Map.empty "\<lparr>stdin = [], stdout = [], stderr = []\<rparr>"]
    by simp
qed

end
